theory Spec2Isabelle
  imports Main
begin

section \<open>Errors raised by the store and by the libraries it calls\<close>

text \<open>
  Every exception that can leave a method of \<open>VersionedData\<close> is a value of \<open>error\<close>.
  \<open>IndexError\<close> is Python's list index error and zarr's "too many indices";
  \<open>BoundsCheckError\<close> is zarr's subclass of \<open>IndexError\<close> for a coordinate
  outside its axis; \<open>ContainsArrayError\<close> is raised by \<open>zarr.open\<close> in mode
  \<open>'w-'\<close> on an existing array and \<open>PathNotFoundError\<close> in mode \<open>'r'\<close> on a
  missing one; \<open>ValueError\<close> is zarr's shape check on assignment and numpy's
  ambiguous truth value; \<open>InvalidDataDaskFillError\<close> carries the name of the
  rejected type.
\<close>

datatype error =
    ZeroDivisionError
  | OverflowError
  | IndexError
  | BoundsCheckError
  | ValueError
  | ContainsArrayError
  | PathNotFoundError
  | InvalidDataDaskFillError string

section \<open>Python's true division of integers\<close>

text \<open>
  \<open>_get_grid_dimensions\<close> computes \<open>int(dimension[i] / chunk_size[i])\<close>. On Python
  integers \<open>/\<close> is true division: the exact quotient rounded to the nearest IEEE
  binary64 number, ties to even; it raises \<open>ZeroDivisionError\<close> for a zero divisor
  and \<open>OverflowError\<close> when the rounded quotient exceeds the largest double.
  A double is kept as sign, mantissa and binary exponent: \<open>PyFloat neg m u\<close> is
  \<open>m * 2 ^ u\<close>, negated when \<open>neg\<close>.
\<close>

datatype pyfloat = PyFloat bool nat int

fun bit_length :: "nat \<Rightarrow> nat" where
  "bit_length n = (if n = 0 then 0 else Suc (bit_length (n div 2)))"

declare bit_length.simps [simp del]

text \<open>Numerator and denominator of \<open>A / (B * 2 ^ u)\<close>.\<close>

definition scaled :: "nat \<Rightarrow> nat \<Rightarrow> int \<Rightarrow> nat \<times> nat" where
  "scaled A B u = (if 0 \<le> u then (A, B * 2 ^ nat u) else (A * 2 ^ nat (- u), B))"

text \<open>The exponent \<open>e\<close> with \<open>2 ^ e \<le> A / B < 2 ^ (e + 1)\<close>, for positive \<open>A\<close>, \<open>B\<close>.\<close>

definition floor_log2_quot :: "nat \<Rightarrow> nat \<Rightarrow> int" where
  "floor_log2_quot A B =
     (let k = int (bit_length A) - int (bit_length B)
      in case scaled A B k of (n, d) \<Rightarrow> if d \<le> n then k else k - 1)"

definition round_half_even :: "nat \<Rightarrow> nat \<Rightarrow> nat" where
  "round_half_even n d =
     (let q = n div d; r = n mod d
      in if 2 * r < d then q
         else if d < 2 * r then q + 1
         else if even q then q else q + 1)"

text \<open>
  The quotient keeps 53 significant bits, fewer below the smallest normal number
  (unit in the last place \<open>2 ^ -1074\<close>); the largest double is
  \<open>(2 ^ 53 - 1) * 2 ^ 971\<close>.
\<close>

definition py_truediv :: "int \<Rightarrow> int \<Rightarrow> error + pyfloat" where
  "py_truediv a b =
     (if b = 0 then Inl ZeroDivisionError
      else if a = 0 then Inr (PyFloat (b < 0) 0 0)
      else
        let A = nat \<bar>a\<bar>; B = nat \<bar>b\<bar>;
            u = max (floor_log2_quot A B - 52) (- 1074);
            m = (case scaled A B u of (n, d) \<Rightarrow> round_half_even n d)
        in if 971 < u \<or> (u = 971 \<and> 2 ^ 53 \<le> m) then Inl OverflowError
           else Inr (PyFloat ((a < 0) \<noteq> (b < 0)) m u))"

text \<open>\<open>int(x)\<close> on a float truncates towards zero.\<close>

fun py_int :: "pyfloat \<Rightarrow> int" where
  "py_int (PyFloat neg m u) =
     (let v = (if 0 \<le> u then int m * 2 ^ nat u else int m div 2 ^ nat (- u))
      in if neg then - v else v)"

section \<open>Grid addressing\<close>

text \<open>
  \<^verbatim>\<open>
  def _get_grid_dimensions(dimension, chunk_size):
      result = []
      for i in range(len(dimension)):
          val = int(dimension[i] / chunk_size[i])
          if dimension[i] % chunk_size[i] > 0:
              val = val + 1
          result.append(val)
      return result
  \<close>
  The loop walks both lists from the front; \<open>chunk_size[i]\<close> raises \<open>IndexError\<close>
  when \<open>chunk_size\<close> is the shorter list, and entries of \<open>chunk_size\<close> beyond
  \<open>len(dimension)\<close> are never read. Python's \<open>%\<close> takes the sign of the divisor,
  as \<open>mod\<close> on \<open>int\<close> does.
\<close>

fun get_grid_dimensions :: "int list \<Rightarrow> int list \<Rightarrow> error + int list" where
  "get_grid_dimensions [] chunk_size = Inr []"
| "get_grid_dimensions (d # dimension) [] = Inl IndexError"
| "get_grid_dimensions (d # dimension) (c # chunk_size) =
     (case py_truediv d c of
        Inl e \<Rightarrow> Inl e
      | Inr q \<Rightarrow>
          let val = py_int q;
              val = (if 0 < d mod c then val + 1 else val)
          in (case get_grid_dimensions dimension chunk_size of
                Inl e \<Rightarrow> Inl e
              | Inr result \<Rightarrow> Inr (val # result)))"

text \<open>The specification's ceiling division, per axis.\<close>

definition ceil_div :: "int \<Rightarrow> int \<Rightarrow> int" where
  "ceil_div s c = - ((- s) div c)"

section \<open>Arrays\<close>

text \<open>
  A numpy array, and the content of a zarr array holding a raw chunk: element type,
  shape, and the elements in row-major order. Element values are integers, the
  store's default element type being \<open>np.int8\<close>; the store only moves them.
\<close>

datatype dtype =
    Int8 | Int16 | Int32 | Int64 | UInt8 | UInt16 | UInt32 | UInt64 | Float32 | Float64

record ndarray =
  nd_dtype :: dtype
  nd_shape :: "nat list"
  nd_data :: "int list"

text \<open>\<open>np.zeros(shape, dtype=dt)\<close>; a zarr array created with the default fill value
  \<open>0\<close> reads the same.\<close>

definition np_zeros :: "nat list \<Rightarrow> dtype \<Rightarrow> ndarray" where
  "np_zeros shp dt = \<lparr>nd_dtype = dt, nd_shape = shp, nd_data = replicate (prod_list shp) 0\<rparr>"

text \<open>
  \<open>z[:] = data\<close> on a zarr array: zarr checks that an array value has exactly the
  shape of the selection and raises \<open>ValueError\<close> otherwise; the stored elements
  keep the element type of \<open>z\<close>.
\<close>

definition zarr_set_all :: "ndarray \<Rightarrow> ndarray \<Rightarrow> error + ndarray" where
  "zarr_set_all z data =
     (if nd_shape data = nd_shape z then Inr (z\<lparr>nd_data := nd_data data\<rparr>)
      else Inl ValueError)"

text \<open>
  The index dataset: one identifier per grid cell, \<open>0\<close> for a cell never written.
  The cells are addressed by their coordinates.
\<close>

record index_array =
  ix_shape :: "nat list"
  ix_cells :: "nat list \<Rightarrow> int"

text \<open>
  zarr's selection with a tuple of integers. More integers than axes raise
  \<open>IndexError\<close> before any coordinate is looked at; then each coordinate is
  normalised against the length of its axis: a negative coordinate counts from the
  end, and a coordinate outside the axis raises \<open>BoundsCheckError\<close>.
\<close>

definition normalize_integer_selection :: "int \<Rightarrow> nat \<Rightarrow> error + nat" where
  "normalize_integer_selection dim_sel dim_len =
     (let dim_sel = (if dim_sel < 0 then int dim_len + dim_sel else dim_sel)
      in if int dim_len \<le> dim_sel \<or> dim_sel < 0 then Inl BoundsCheckError
         else Inr (nat dim_sel))"

fun normalize_coords :: "nat list \<Rightarrow> int list \<Rightarrow> error + nat list" where
  "normalize_coords shp [] = Inr []"
| "normalize_coords [] (p # ps) = Inl IndexError"
| "normalize_coords (n # shp) (p # ps) =
     (case normalize_integer_selection p n of
        Inl e \<Rightarrow> Inl e
      | Inr c \<Rightarrow>
          (case normalize_coords shp ps of
             Inl e \<Rightarrow> Inl e
           | Inr cs \<Rightarrow> Inr (c # cs)))"

definition normalize_selection :: "nat list \<Rightarrow> int list \<Rightarrow> error + nat list" where
  "normalize_selection shp sel =
     (if length shp < length sel then Inl IndexError else normalize_coords shp sel)"

text \<open>
  \<open>z[grid_position]\<close>: one integer per axis selects a cell; fewer integers select
  the sub-array of all cells that start with the given coordinates, kept here as
  its shape and its cells.
\<close>

datatype item = Cell int | SubArray "nat list" "nat list \<Rightarrow> int"

definition zarr_getitem :: "index_array \<Rightarrow> int list \<Rightarrow> error + item" where
  "zarr_getitem z grid_position =
     (case normalize_selection (ix_shape z) grid_position of
        Inl e \<Rightarrow> Inl e
      | Inr sel \<Rightarrow>
          if length sel = length (ix_shape z) then Inr (Cell (ix_cells z sel))
          else Inr (SubArray (drop (length sel) (ix_shape z)) (\<lambda>q. ix_cells z (sel @ q))))"

text \<open>\<open>z[position] = index\<close> with a scalar: every selected cell takes the value.\<close>

definition zarr_setitem :: "index_array \<Rightarrow> int list \<Rightarrow> int \<Rightarrow> error + index_array" where
  "zarr_setitem z position v =
     (case normalize_selection (ix_shape z) position of
        Inl e \<Rightarrow> Inl e
      | Inr sel \<Rightarrow>
          Inr (z\<lparr>ix_cells :=
                 (\<lambda>q. if length q = length (ix_shape z) \<and> take (length sel) q = sel
                       then v else ix_cells z q)\<rparr>))"

text \<open>
  The test \<open>x > 0\<close> of an \<open>if\<close>: on a cell it compares the value; on a
  sub-array numpy compares every element and the truth value of the result is
  that of its only element, \<open>ValueError\<close> unless it has exactly one.
\<close>

definition py_gt0 :: "item \<Rightarrow> error + bool" where
  "py_gt0 x =
     (case x of
        Cell v \<Rightarrow> Inr (0 < v)
      | SubArray shp f \<Rightarrow>
          if prod_list shp = 1 then Inr (0 < f (replicate (length shp) 0))
          else Inl ValueError)"

section \<open>The store on disk and the object that accesses it\<close>

text \<open>
  Modelled from the spec: the class \<open>Metadata\<close> (module \<open>metadata\<close>, imported by
  \<open>data.py\<close>). It persists the array shape, the chunk shape, the element type and
  the allocator's counter \<open>total_chunks\<close>, the count of identifiers ever allocated;
  \<open>create_like\<close> writes them for a new store, \<open>read_metadata\<close> reads them back.
\<close>

record metadata =
  md_shape :: "nat list"
  md_chunks :: "nat list"
  md_dtype :: dtype
  total_chunks :: int

text \<open>
  The content of the store's directory: the index dataset \<open>indexes\<close>, the chunk
  files under \<open>raw/\<close>, each named by the decimal form of its identifier, and
  the metadata.
\<close>

record store =
  indexes :: index_array
  raw :: "int \<Rightarrow> ndarray option"
  meta :: metadata

text \<open>
  The fields of a \<open>VersionedData\<close> object that the methods below read. Shapes are
  natural numbers. The path is left out: the directory it names is the \<open>store\<close>
  passed to each method, and \<open>store option\<close> where the directory may not exist.
\<close>

record versioned_data =
  shape :: "nat list"
  raw_chunk_size :: "nat list"
  d_type :: dtype
  index_matrix_dimension :: "nat list"

definition DEFAULT_RAW_CHUNK_SIZE :: nat where
  "DEFAULT_RAW_CHUNK_SIZE = 128"

text \<open>
  \<open>__init__\<close>: the chunk shape defaults to 128 per axis, and the grid dimensions
  are computed once, so that an error of \<open>_get_grid_dimensions\<close> leaves the
  constructor.
\<close>

definition VersionedData :: "nat list \<Rightarrow> nat list option \<Rightarrow> dtype \<Rightarrow> error + versioned_data" where
  "VersionedData shp chunk_size_arg dt =
     (let chunk_size = (case chunk_size_arg of
                          Some c \<Rightarrow> c
                        | None \<Rightarrow> replicate (length shp) DEFAULT_RAW_CHUNK_SIZE)
      in case get_grid_dimensions (map int shp) (map int chunk_size) of
           Inl e \<Rightarrow> Inl e
         | Inr dims \<Rightarrow>
             Inr \<lparr>shape = shp, raw_chunk_size = chunk_size, d_type = dt,
                  index_matrix_dimension = map nat dims\<rparr>)"

text \<open>
  \<open>_create_new_dataset\<close>: the index dataset is created with the grid dimensions as
  its shape and reads \<open>0\<close> everywhere; the metadata start with no identifier
  allocated; no chunk exists.
\<close>

definition create_new_dataset :: "versioned_data \<Rightarrow> store" where
  "create_new_dataset vd =
     \<lparr>indexes = \<lparr>ix_shape = index_matrix_dimension vd, ix_cells = (\<lambda>q. 0)\<rparr>,
      raw = (\<lambda>i. None),
      meta = \<lparr>md_shape = shape vd, md_chunks = raw_chunk_size vd, md_dtype = d_type vd,
              total_chunks = 0\<rparr>\<rparr>"

text \<open>
  \<^verbatim>\<open>
  def create(self, overwrite=False):
      if os.path.exists(self.path):
          if overwrite:
              shutil.rmtree(self.path)
          else:
              return
      os.mkdir(self.path)
      os.mkdir(self._raw_path)
      self._create_new_dataset()
  \<close>
  The directory is \<open>None\<close> when the path does not exist. Removing and making
  directories are taken to succeed.
\<close>

definition create :: "versioned_data \<Rightarrow> store option \<Rightarrow> bool \<Rightarrow> (error + unit) \<times> store option" where
  "create vd dir overwrite =
     (case dir of
        Some s \<Rightarrow>
          if overwrite then (Inr (), Some (create_new_dataset vd))
          else (Inr (), dir)
      | None \<Rightarrow> (Inr (), Some (create_new_dataset vd)))"

text \<open>\<open>open(path)\<close>: a new object from the persisted metadata.\<close>

definition open_store :: "store \<Rightarrow> error + versioned_data" where
  "open_store s =
     VersionedData (md_shape (meta s)) (Some (md_chunks (meta s))) (md_dtype (meta s))"

section \<open>Identifier allocation\<close>

text \<open>
  Modelled from the spec: \<open>Metadata.next_chunk\<close>. It reads the counter from the
  persisted metadata, writes it back incremented as part of the call, and returns
  the new value, so that identifiers start at \<open>1\<close> and each is greater than
  every one returned before.
\<close>

definition next_chunk :: "store \<Rightarrow> int \<times> store" where
  "next_chunk s =
     (let m = meta s; m = m\<lparr>total_chunks := total_chunks m + 1\<rparr>
      in (total_chunks m, s\<lparr>meta := m\<rparr>))"

definition get_next_index :: "store \<Rightarrow> int \<times> store" where
  "get_next_index s = next_chunk s"

definition get_total_chunks :: "store \<Rightarrow> int" where
  "get_total_chunks s = total_chunks (meta s)"

section \<open>Chunks\<close>

text \<open>
  \<^verbatim>\<open>
  def save_raw(self, data, index):
      new_file = os.path.join(self._raw_path, "{}".format(index))
      z = zarr.open(new_file, shape=self.raw_chunk_size, chunks=self.raw_chunk_size,
                    mode='w-', dtype=data.dtype)
      z[:] = data
  \<close>
  Mode \<open>'w-'\<close> creates the array and fails if it exists. The array is created
  before the assignment, so a block of another shape leaves a zero chunk behind.
\<close>

definition save_raw :: "versioned_data \<Rightarrow> store \<Rightarrow> ndarray \<Rightarrow> int \<Rightarrow> (error + unit) \<times> store" where
  "save_raw vd s data index =
     (case raw s index of
        Some c \<Rightarrow> (Inl ContainsArrayError, s)
      | None \<Rightarrow>
          let z = np_zeros (raw_chunk_size vd) (nd_dtype data)
          in (case zarr_set_all z data of
                Inl e \<Rightarrow> (Inl e, s\<lparr>raw := (raw s)(index \<mapsto> z)\<rparr>)
              | Inr z' \<Rightarrow> (Inr (), s\<lparr>raw := (raw s)(index \<mapsto> z')\<rparr>)))"

text \<open>
  \<open>get_file\<close> opens the chunk named by \<open>file_id\<close> in mode \<open>'r'\<close>, which fails if
  there is none. No chunk is named by the text of a sub-array.
\<close>

definition get_file :: "store \<Rightarrow> item \<Rightarrow> error + ndarray" where
  "get_file s file_id =
     (case file_id of
        Cell i \<Rightarrow> (case raw s i of None \<Rightarrow> Inl PathNotFoundError | Some c \<Rightarrow> Inr c)
      | SubArray shp f \<Rightarrow> Inl PathNotFoundError)"

section \<open>Reading and writing blocks\<close>

text \<open>
  \<^verbatim>\<open>
  def get_chunk(self, grid_position):
      z = zarr.open(self._index_dataset_path, mode='r')
      file_id = z[grid_position]
      if file_id > 0:
          return self.get_file(file_id)[:]
      return np.zeros(self.raw_chunk_size, dtype=np.uint64)
  \<close>
  Everything is opened read-only, so the method returns a value and leaves the
  store as it is.
\<close>

definition get_chunk :: "versioned_data \<Rightarrow> store \<Rightarrow> int list \<Rightarrow> error + ndarray" where
  "get_chunk vd s grid_position =
     (case zarr_getitem (indexes s) grid_position of
        Inl e \<Rightarrow> Inl e
      | Inr file_id \<Rightarrow>
          (case py_gt0 file_id of
             Inl e \<Rightarrow> Inl e
           | Inr b \<Rightarrow>
               if b then get_file s file_id
               else Inr (np_zeros (raw_chunk_size vd) UInt64)))"

text \<open>\<open>block_exists\<close> returns the integers \<open>1\<close> and \<open>0\<close>.\<close>

definition block_exists :: "store \<Rightarrow> int list \<Rightarrow> error + int" where
  "block_exists s grid_position =
     (case zarr_getitem (indexes s) grid_position of
        Inl e \<Rightarrow> Inl e
      | Inr v \<Rightarrow>
          (case py_gt0 v of
             Inl e \<Rightarrow> Inl e
           | Inr b \<Rightarrow> Inr (if b then 1 else 0)))"

definition update_index :: "store \<Rightarrow> int \<Rightarrow> int list \<Rightarrow> (error + unit) \<times> store" where
  "update_index s index position =
     (case zarr_setitem (indexes s) position index of
        Inl e \<Rightarrow> (Inl e, s)
      | Inr z \<Rightarrow> (Inr (), s\<lparr>indexes := z\<rparr>))"

text \<open>
  \<^verbatim>\<open>
  def write_block(self, data, grid_position):
      new_chunk_index = self._get_next_index()
      self.save_raw(data, new_chunk_index)
      self._update_index(new_chunk_index, grid_position)
  \<close>
  An exception of \<open>save_raw\<close> or \<open>_update_index\<close> leaves the method with the
  store as the steps before it left it.
\<close>

definition write_block :: "versioned_data \<Rightarrow> store \<Rightarrow> ndarray \<Rightarrow> int list \<Rightarrow> (error + unit) \<times> store" where
  "write_block vd s data grid_position =
     (case get_next_index s of
        (new_chunk_index, s1) \<Rightarrow>
          (case save_raw vd s1 data new_chunk_index of
             (Inl e, s2) \<Rightarrow> (Inl e, s2)
           | (Inr u, s2) \<Rightarrow> update_index s2 new_chunk_index grid_position))"

section \<open>Filling the index from a dask array\<close>

text \<open>
  \<^verbatim>\<open>
  def fill_index_dataset(self, data):
      if data is not None:
          if isinstance(data, da.Array):
              dest = zarr.open(self._index_dataset_path)
              da.store(data, dest)
          else:
              raise InvalidDataDaskFillError(type(data))
  \<close>
  The argument is \<open>None\<close>, a dask array, or an object of another type, known by
  the name of its type. What \<open>da.store\<close> makes of the index dataset belongs to
  dask and is the parameter \<open>da_store\<close>.
\<close>

datatype 'd source = PyNone | DaskArray 'd | Other string

definition fill_index_dataset ::
  "('d \<Rightarrow> index_array \<Rightarrow> (error + unit) \<times> index_array) \<Rightarrow> store \<Rightarrow> 'd source
     \<Rightarrow> (error + unit) \<times> store" where
  "fill_index_dataset da_store s data =
     (case data of
        PyNone \<Rightarrow> (Inr (), s)
      | DaskArray d \<Rightarrow>
          (case da_store d (indexes s) of (r, dest) \<Rightarrow> (r, s\<lparr>indexes := dest\<rparr>))
      | Other type_name \<Rightarrow> (Inl (InvalidDataDaskFillError type_name), s))"

section \<open>Grid positions, well-formed stores, sessions\<close>

text \<open>A grid position within bounds: one coordinate per axis, each in \<open>[0, n)\<close>.\<close>

definition in_bounds :: "nat list \<Rightarrow> int list \<Rightarrow> bool" where
  "in_bounds dims p = list_all2 (\<lambda>n c. 0 \<le> c \<and> c < int n) dims p"

text \<open>A grid position with a coordinate at or beyond the length of its axis.\<close>

definition beyond_bounds :: "nat list \<Rightarrow> int list \<Rightarrow> bool" where
  "beyond_bounds dims p = (length p = length dims \<and> list_ex (\<lambda>(n, c). int n \<le> c) (zip dims p))"

text \<open>
  What every store satisfies that was made by \<open>create\<close> and changed by the
  methods above: the counter is not negative and no chunk exists under an
  identifier that is still to be allocated.
\<close>

definition store_inv :: "store \<Rightarrow> bool" where
  "store_inv s = (0 \<le> total_chunks (meta s) \<and> (\<forall>i. total_chunks (meta s) < i \<longrightarrow> raw s i = None))"

text \<open>
  A session is a sequence of \<open>write_block\<close> calls, with restarts in between: a
  restart drops the object and opens the store again from its metadata. A call
  that raises does not end the session. \<open>allocated\<close> lists the identifiers that
  the calls obtain from \<open>_get_next_index\<close>, in order.
\<close>

datatype cmd = Write ndarray "int list" | Reopen

fun allocated :: "versioned_data \<Rightarrow> store \<Rightarrow> cmd list \<Rightarrow> int list" where
  "allocated vd s [] = []"
| "allocated vd s (Write data grid_position # cs) =
     fst (get_next_index s) # allocated vd (snd (write_block vd s data grid_position)) cs"
| "allocated vd s (Reopen # cs) =
     (case open_store s of
        Inl e \<Rightarrow> allocated vd s cs
      | Inr vd' \<Rightarrow> allocated vd' s cs)"

section \<open>A small store for examples\<close>

text \<open>An array of 4 elements of type \<open>int8\<close> in chunks of 2: a grid of 2 cells.\<close>

definition vd0 :: versioned_data where
  "vd0 = \<lparr>shape = [4], raw_chunk_size = [2], d_type = Int8, index_matrix_dimension = [2]\<rparr>"

definition block0 :: ndarray where
  "block0 = \<lparr>nd_dtype = Int8, nd_shape = [2], nd_data = [7, - 3]\<rparr>"

definition block1 :: ndarray where
  "block1 = \<lparr>nd_dtype = Int8, nd_shape = [2], nd_data = [1, 2]\<rparr>"

definition store0 :: store where
  "store0 = create_new_dataset vd0"

text \<open>The store after one block has been written to the second cell.\<close>

definition store1 :: store where
  "store1 = snd (write_block vd0 store0 block0 [1])"

text \<open>A stand-in for \<open>da.store\<close> on a source as large as the index dataset: the
  source's cells replace the index's.\<close>

definition da_store_whole :: "(nat list \<Rightarrow> int) \<Rightarrow> index_array \<Rightarrow> (error + unit) \<times> index_array" where
  "da_store_whole d dest = (Inr (), dest\<lparr>ix_cells := d\<rparr>)"

section \<open>Grid dimensions\<close>

text \<open>Rules that evaluate \<open>bit_length\<close>, and with it the division, on numerals.\<close>

lemma bit_length_0: "bit_length 0 = 0"
  by (simp add: bit_length.simps)

lemma bit_length_1: "bit_length 1 = 1" "bit_length (Suc 0) = 1"
  by (simp_all add: bit_length.simps)

lemma bit_length_numeral: "bit_length (numeral k) = Suc (bit_length (numeral k div 2))"
  by (subst bit_length.simps) simp

lemmas py_truediv_eval =
  py_truediv_def floor_log2_quot_def scaled_def round_half_even_def
  bit_length_0 bit_length_1 bit_length_numeral Let_def

lemma grid_dimensions_example: "get_grid_dimensions [100, 100] [64, 64] = Inr [2, 2]"
  by (simp add: py_truediv_eval)

text \<open>
  Where the shape is below \<open>2 ^ 53\<close> the float quotient truncates to the integer
  quotient, and the function is ceiling division: the number of bits of the
  quotient bounds the exponent, and rounding to 53 bits cannot reach the next
  integer.
\<close>

lemma bit_length_upper: "n < 2 ^ bit_length n"
proof (induction n rule: bit_length.induct)
  case (1 n)
  show ?case
  proof (cases "n = 0")
    case True
    then show ?thesis by (simp add: bit_length_0)
  next
    case False
    with 1 have "n div 2 < 2 ^ bit_length (n div 2)" by simp
    then have "n < 2 * 2 ^ bit_length (n div 2)" by linarith
    with False show ?thesis by (subst bit_length.simps) simp
  qed
qed

lemma bit_length_lower: "0 < n \<Longrightarrow> 2 ^ (bit_length n - 1) \<le> n"
proof (induction n rule: bit_length.induct)
  case (1 n)
  show ?case
  proof (cases "n div 2 = 0")
    case True
    with 1(2) have "n = 1" by linarith
    then show ?thesis by (simp add: bit_length_1)
  next
    case False
    with 1 have ih: "2 ^ (bit_length (n div 2) - 1) \<le> n div 2" by simp
    from False have "0 < bit_length (n div 2)" by (subst bit_length.simps) simp
    then have "(2::nat) ^ bit_length (n div 2) = 2 * 2 ^ (bit_length (n div 2) - 1)"
      by (cases "bit_length (n div 2)") simp_all
    with ih have "2 ^ bit_length (n div 2) \<le> n" by linarith
    with 1(2) show ?thesis by (subst bit_length.simps) simp
  qed
qed

lemma bit_length_pos: "0 < n \<Longrightarrow> 0 < bit_length n"
  by (subst bit_length.simps) simp

lemma bit_length_le: "n < 2 ^ k \<Longrightarrow> bit_length n \<le> k"
proof (rule ccontr)
  assume a: "n < 2 ^ k" and "\<not> bit_length n \<le> k"
  then have k: "k \<le> bit_length n - 1" and pos: "0 < bit_length n" by simp_all
  then have "0 < n" by (cases "n = 0") (simp_all add: bit_length_0)
  from bit_length_lower [OF this] have "2 ^ (bit_length n - 1) \<le> n" .
  moreover from k have "(2::nat) ^ k \<le> 2 ^ (bit_length n - 1)" by (rule power_increasing) simp
  ultimately show False using a by linarith
qed


lemma round_half_even_cases:
  "round_half_even n d = n div d \<or> (round_half_even n d = n div d + 1 \<and> d \<le> 2 * (n mod d))"
  by (auto simp: round_half_even_def Let_def)

lemma round_half_even_trunc:
  assumes B: "0 < B" and small: "A mod B + 1 < 2 ^ (w + 1)"
  shows "round_half_even (A * 2 ^ w) B div 2 ^ w = A div B"
proof -
  define k where "k = A div B"
  define R where "R = A mod B"
  define D where "D = B - R"
  define X :: nat where "X = 2 ^ w"
  define n where "n = A * X"
  define q where "q = n div B"
  define r where "r = n mod B"
  define m where "m = round_half_even n B"
  have A: "A = k * B + R" by (simp add: k_def R_def)
  have RB: "R < B" using B by (simp add: R_def)
  have BD: "B = R + D" and D1: "1 \<le> D" using RB by (simp_all add: D_def)
  have X1: "1 \<le> X" by (simp add: X_def)
  have n: "n = q * B + r" by (simp add: q_def r_def)
  have rB: "r < B" using B by (simp add: r_def)
  have nk: "n = k * X * B + R * X" by (simp add: n_def A algebra_simps)
  have "R + 1 < 2 * X" using small by (simp add: R_def X_def)
  have DX: "D + 2 * X \<le> D * (2 * X) + 1"
  proof -
    obtain d where d: "D = Suc d" using D1 by (cases D) auto
    obtain x where x: "2 * X = Suc x" using X1 by (cases "2 * X") auto
    show ?thesis unfolding x unfolding d by simp
  qed
  have big: "B < 2 * (D * X)"
    using DX \<open>R + 1 < 2 * X\<close> BD by (simp add: algebra_simps)
  have lower: "k * X \<le> q"
  proof -
    have "k * X * B \<le> n" by (simp add: nk)
    then show ?thesis unfolding q_def using B by (simp add: less_eq_div_iff_mult_less_eq)
  qed
  have nlt: "n < (k + 1) * X * B"
  proof -
    have "R * X < B * X" using RB X1 by simp
    then show ?thesis by (simp add: nk algebra_simps)
  qed
  have qlt: "q < (k + 1) * X"
  proof -
    have "q * B \<le> n" by (simp add: n)
    with nlt have "q * B < (k + 1) * X * B" by linarith
    then show ?thesis by (simp only: mult_less_cancel2)
  qed
  have upper: "m < (k + 1) * X"
  proof -
    from round_half_even_cases [of n B]
    consider "m = q" | "m = q + 1" "B \<le> 2 * r"
      by (auto simp: m_def q_def r_def)
    then show ?thesis
    proof cases
      case 1
      with qlt show ?thesis by simp
    next
      case 2
      have "(k + 1) * X * B = n + D * X"
        by (simp add: nk BD algebra_simps)
      moreover have "(q + 1) * B = n + B - r" using rB by (simp add: n)
      moreover have "2 * (B - r) \<le> B" using 2(2) rB by linarith
      ultimately have "(q + 1) * B < (k + 1) * X * B" using big rB by linarith
      then have "q + 1 < (k + 1) * X" by (simp only: mult_less_cancel2)
      with 2(1) show ?thesis by simp
    qed
  qed
  have "q \<le> m"
    using round_half_even_cases [of n B] by (auto simp: m_def q_def)
  with lower have "X * k \<le> m" by (simp add: mult.commute)
  moreover from upper have "m < X * Suc k" by (simp add: mult.commute)
  ultimately have "m div X = k" by (rule div_nat_eqI)
  then show ?thesis by (simp add: m_def n_def X_def k_def)
qed


lemma floor_log2_quot_le:
  assumes "0 < B" "A < 2 ^ 53"
  shows "floor_log2_quot A B \<le> 52"
proof -
  have "bit_length A \<le> 53" by (rule bit_length_le [OF assms(2)])
  moreover have "0 < bit_length B" by (rule bit_length_pos [OF assms(1)])
  ultimately have "int (bit_length A) - int (bit_length B) \<le> 52" by linarith
  then show ?thesis
    by (auto simp: floor_log2_quot_def Let_def split: prod.splits)
qed

lemma floor_log2_quot_lower:
  assumes A: "0 < A" and B: "0 < B" and e: "0 \<le> floor_log2_quot A B"
  shows "B * 2 ^ nat (floor_log2_quot A B) \<le> A"
proof -
  define k where "k = int (bit_length A) - int (bit_length B)"
  show ?thesis
  proof (cases "0 \<le> k \<and> B * 2 ^ nat k \<le> A")
    case True
    then have "floor_log2_quot A B = k"
      by (simp add: floor_log2_quot_def k_def [symmetric] scaled_def)
    with True show ?thesis by simp
  next
    case False
    have e1: "floor_log2_quot A B = k - 1"
    proof (cases "0 \<le> k")
      case True
      with False show ?thesis
        by (simp add: floor_log2_quot_def k_def [symmetric] scaled_def)
    next
      case neg: False
      then have "floor_log2_quot A B \<le> k"
        by (simp add: floor_log2_quot_def k_def [symmetric] scaled_def)
      with e neg show ?thesis by simp
    qed
    with e have k1: "1 \<le> k" by simp
    then have bl: "bit_length A = bit_length B + nat (k - 1) + 1"
      unfolding k_def by linarith
    have "B * 2 ^ nat (k - 1) \<le> 2 ^ bit_length B * 2 ^ nat (k - 1)"
      using bit_length_upper [of B] by simp
    also have "\<dots> = 2 ^ (bit_length A - 1)"
      by (simp add: bl power_add)
    also have "\<dots> \<le> A" by (rule bit_length_lower [OF A])
    finally show ?thesis by (simp add: e1)
  qed
qed

lemma py_truediv_small:
  assumes a0: "0 \<le> a" and a53: "a < 2 ^ 53" and b: "0 < b"
  shows "\<exists>q. py_truediv a b = Inr q \<and> py_int q = a div b"
proof (cases "a = 0")
  case True
  with b show ?thesis by (simp add: py_truediv_def)
next
  case False
  define A where "A = nat \<bar>a\<bar>"
  define B where "B = nat \<bar>b\<bar>"
  define e where "e = floor_log2_quot A B"
  define u where "u = max (e - 52) (- 1074)"
  define w where "w = nat (- u)"
  define m where "m = round_half_even (A * 2 ^ w) B"
  have A: "0 < A" "int A = a" using False a0 by (simp_all add: A_def)
  have B: "0 < B" "int B = b" using b by (simp_all add: B_def)
  have A53: "A < 2 ^ 53" using a53 A(2) a0 by (simp add: A_def nat_less_iff)
  have e52: "e \<le> 52" unfolding e_def by (rule floor_log2_quot_le [OF B(1) A53])
  then have u0: "u \<le> 0" by (simp add: u_def)
  have sc: "scaled A B u = (A * 2 ^ w, B)"
    using u0 by (cases "u = 0") (simp_all add: scaled_def w_def)
  have ab: "nat \<bar>a\<bar> = A" "nat \<bar>b\<bar> = B" by (simp_all add: A_def B_def)
  have pt: "py_truediv a b = Inr (PyFloat False m u)"
    unfolding py_truediv_def Let_def ab e_def [symmetric] u_def [symmetric] sc
    using False b a0 u0 by (simp add: m_def)
  have small: "A mod B + 1 < 2 ^ (w + 1)"
  proof (cases "0 \<le> e")
    case True
    then have w: "w = nat (52 - e)" unfolding w_def u_def by arith
    from floor_log2_quot_lower [OF A(1) B(1)] True have "B * 2 ^ nat e \<le> A" by (simp add: e_def)
    with A53 have "B * 2 ^ nat e < 2 ^ 53" by linarith
    also have "(2::nat) ^ 53 = 2 ^ (w + 1) * 2 ^ nat e"
      using True e52 by (simp add: w power_add [symmetric] nat_add_distrib [symmetric])
    finally have "B < 2 ^ (w + 1)" by (simp only: mult_less_cancel2)
    moreover have "A mod B < B" using B(1) by simp
    ultimately show ?thesis by linarith
  next
    case False
    then have "53 \<le> w" unfolding w_def u_def by arith
    then have "(2::nat) ^ 53 \<le> 2 ^ w" by (intro power_increasing) simp_all
    moreover have "(2::nat) ^ (w + 1) = 2 * 2 ^ w" by simp
    ultimately show ?thesis using A53 mod_less_eq_dividend [of A B] by linarith
  qed
  have md: "m div 2 ^ w = A div B"
    unfolding m_def by (rule round_half_even_trunc [OF B(1) small])
  have "py_int (PyFloat False m u) = int (m div 2 ^ w)"
    using u0 by (cases "u = 0") (simp_all add: w_def zdiv_int)
  also have "\<dots> = a div b" by (simp add: md zdiv_int A(2) B(2))
  finally show ?thesis using pt by simp
qed


lemma ceil_div_pos: "0 < c \<Longrightarrow> ceil_div s c = s div c + (if 0 < s mod c then 1 else 0)"
proof -
  assume c: "0 < c"
  from pos_mod_sign [OF c, of s] have "s mod c \<noteq> 0 \<longleftrightarrow> 0 < s mod c" by linarith
  then show ?thesis using c
    by (auto simp: ceil_div_def zdiv_zminus1_eq_if)
qed

lemma grid_dimensions_small_shapes:
  assumes "list_all2 (\<lambda>s c. 0 \<le> s \<and> s < 2 ^ 53 \<and> 0 < c) S C"
  shows "get_grid_dimensions S C = Inr (map2 ceil_div S C)"
  using assms
proof (induction S C rule: list_all2_induct)
  case Nil
  then show ?case by simp
next
  case (Cons s S c C)
  from Cons(1) obtain q where q: "py_truediv s c = Inr q" "py_int q = s div c"
    using py_truediv_small [of s c] by auto
  from Cons(1) have "ceil_div s c = s div c + (if 0 < s mod c then 1 else 0)"
    by (simp add: ceil_div_pos)
  with q Cons(3) show ?case by (simp add: Let_def)
qed

text \<open>
  Claim C5 holds for shapes below \<open>2 ^ 53\<close>, the example of the specification
  among them, and fails where the quotient needs more than 53 bits: for a shape
  of \<open>2 ^ 53 + 1\<close> in chunks of \<open>1\<close> the float quotient is \<open>2 ^ 53\<close>, the
  remainder is \<open>0\<close>, and the result is one less than the ceiling.
\<close>

theorem grid_dimensions_rounds_large_shape:
  "get_grid_dimensions [9007199254740993] [1] = Inr [9007199254740992]
   \<and> ceil_div 9007199254740993 1 = 9007199254740993"
  by (simp add: py_truediv_eval ceil_div_def)

section \<open>Selections within and beyond the bounds\<close>

lemma normalize_integer_selection_in:
  "0 \<le> c \<Longrightarrow> c < int n \<Longrightarrow> normalize_integer_selection c n = Inr (nat c)"
  by (simp add: normalize_integer_selection_def)

lemma normalize_integer_selection_beyond:
  "int n \<le> c \<Longrightarrow> normalize_integer_selection c n = Inl BoundsCheckError"
  by (simp add: normalize_integer_selection_def)

lemma normalize_integer_selection_cases:
  "normalize_integer_selection c n = Inl BoundsCheckError \<or> (\<exists>k. normalize_integer_selection c n = Inr k)"
  by (simp add: normalize_integer_selection_def Let_def)

lemma normalize_coords_in_bounds:
  "in_bounds dims p \<Longrightarrow> normalize_coords dims p = Inr (map nat p)"
  unfolding in_bounds_def
  by (induction dims p rule: list_all2_induct) (simp_all add: normalize_integer_selection_in)

lemma in_bounds_length: "in_bounds dims p \<Longrightarrow> length p = length dims"
  by (simp add: in_bounds_def list_all2_lengthD)

lemma normalize_selection_in_bounds:
  "in_bounds dims p \<Longrightarrow> normalize_selection dims p = Inr (map nat p)"
  by (simp add: normalize_selection_def normalize_coords_in_bounds in_bounds_length)

lemma normalize_coords_beyond:
  "length p = length dims \<Longrightarrow> list_ex (\<lambda>(n, c). int n \<le> c) (zip dims p)
     \<Longrightarrow> normalize_coords dims p = Inl BoundsCheckError"
proof (induction p dims rule: list_induct2)
  case Nil
  then show ?case by simp
next
  case (Cons c p n dims)
  show ?case
  proof (cases "int n \<le> c")
    case True
    then show ?thesis by (simp add: normalize_integer_selection_beyond)
  next
    case False
    with Cons have tl: "normalize_coords dims p = Inl BoundsCheckError" by simp
    from normalize_integer_selection_cases [of c n] show ?thesis
    proof
      assume "normalize_integer_selection c n = Inl BoundsCheckError"
      then show ?thesis by simp
    next
      assume "\<exists>k. normalize_integer_selection c n = Inr k"
      then obtain k where "normalize_integer_selection c n = Inr k" ..
      then show ?thesis using tl by simp
    qed
  qed
qed

lemma normalize_selection_beyond:
  "beyond_bounds dims p \<Longrightarrow> normalize_selection dims p = Inl BoundsCheckError"
  by (simp add: beyond_bounds_def normalize_selection_def normalize_coords_beyond)

lemma zarr_getitem_in_bounds:
  "in_bounds (ix_shape z) p \<Longrightarrow> zarr_getitem z p = Inr (Cell (ix_cells z (map nat p)))"
  by (simp add: zarr_getitem_def normalize_selection_in_bounds in_bounds_length)

lemma zarr_setitem_in_bounds:
  "in_bounds (ix_shape z) p \<Longrightarrow>
     zarr_setitem z p v = Inr (z\<lparr>ix_cells := (\<lambda>q. if q = map nat p then v else ix_cells z q)\<rparr>)"
proof -
  assume b: "in_bounds (ix_shape z) p"
  have "(length q = length (ix_shape z) \<and> take (length (map nat p)) q = map nat p) = (q = map nat p)" for q
    using in_bounds_length [OF b] by auto
  then show ?thesis
    by (simp add: zarr_setitem_def normalize_selection_in_bounds [OF b])
qed

lemma zarr_getitem_beyond: "beyond_bounds (ix_shape z) p \<Longrightarrow> zarr_getitem z p = Inl BoundsCheckError"
  by (simp add: zarr_getitem_def normalize_selection_beyond)

lemma zarr_setitem_beyond: "beyond_bounds (ix_shape z) p \<Longrightarrow> zarr_setitem z p v = Inl BoundsCheckError"
  by (simp add: zarr_setitem_def normalize_selection_beyond)

lemma zarr_set_all_zeros:
  "nd_shape b = shp \<Longrightarrow> zarr_set_all (np_zeros shp (nd_dtype b)) b = Inr b"
  by (simp add: zarr_set_all_def np_zeros_def)

lemma save_raw_fresh:
  "raw s i = None \<Longrightarrow> nd_shape b = raw_chunk_size vd \<Longrightarrow>
     save_raw vd s b i = (Inr (), s\<lparr>raw := (raw s)(i \<mapsto> b)\<rparr>)"
  by (simp add: save_raw_def zarr_set_all_zeros)

lemma get_next_index_eq:
  "get_next_index s = (total_chunks (meta s) + 1, s\<lparr>meta := (meta s)\<lparr>total_chunks := total_chunks (meta s) + 1\<rparr>\<rparr>)"
  by (simp add: get_next_index_def next_chunk_def Let_def)

lemma write_block_ok:
  assumes "store_inv s" "in_bounds (ix_shape (indexes s)) p" "nd_shape b = raw_chunk_size vd"
  shows "write_block vd s b p =
     (Inr (), s\<lparr>meta := (meta s)\<lparr>total_chunks := total_chunks (meta s) + 1\<rparr>,
                raw := (raw s)(total_chunks (meta s) + 1 \<mapsto> b),
                indexes := (indexes s)\<lparr>ix_cells :=
                   (\<lambda>q. if q = map nat p then total_chunks (meta s) + 1 else ix_cells (indexes s) q)\<rparr>\<rparr>)"
proof -
  from assms(1) have free: "raw s (total_chunks (meta s) + 1) = None"
    by (simp add: store_inv_def)
  show ?thesis
    by (simp add: write_block_def get_next_index_eq save_raw_fresh free assms(3)
        update_index_def zarr_setitem_in_bounds assms(2))
qed

section \<open>The invariant of the store\<close>

text \<open>
  \<open>create\<close> establishes the invariant and every method keeps it, whether it
  returns normally or raises; so it holds of every store that the methods can
  produce.
\<close>

lemma store_inv_create_new_dataset: "store_inv (create_new_dataset vd)"
  by (simp add: store_inv_def create_new_dataset_def)

lemma store_inv_create:
  assumes "create vd dir overwrite = (r, Some s)"
    and "\<And>s0. dir = Some s0 \<Longrightarrow> store_inv s0"
  shows "store_inv s"
  using assms
  by (auto simp: create_def store_inv_create_new_dataset split: option.splits if_splits)

lemma store_inv_save_raw:
  "store_inv s \<Longrightarrow> i \<le> total_chunks (meta s) \<Longrightarrow> store_inv (snd (save_raw vd s b i))"
  by (auto simp: store_inv_def save_raw_def Let_def split: option.splits sum.splits)

lemma store_inv_update_index: "store_inv s \<Longrightarrow> store_inv (snd (update_index s i p))"
  by (auto simp: store_inv_def update_index_def split: sum.splits)

lemma store_inv_get_next_index: "store_inv s \<Longrightarrow> store_inv (snd (get_next_index s))"
  by (auto simp: store_inv_def get_next_index_eq)

lemma store_inv_write_block: "store_inv s \<Longrightarrow> store_inv (snd (write_block vd s b p))"
proof -
  assume inv: "store_inv s"
  let ?s1 = "snd (get_next_index s)" and ?i = "fst (get_next_index s)"
  have i: "?i \<le> total_chunks (meta ?s1)" by (simp add: get_next_index_eq)
  have inv2: "store_inv (snd (save_raw vd ?s1 b ?i))"
    by (rule store_inv_save_raw [OF store_inv_get_next_index [OF inv] i])
  show ?thesis
    using inv2 store_inv_update_index [OF inv2, of ?i p]
    by (auto simp: write_block_def split: prod.splits sum.splits)
qed

lemma store_inv_fill_index_dataset: "store_inv s \<Longrightarrow> store_inv (snd (fill_index_dataset f s d))"
  by (auto simp: store_inv_def fill_index_dataset_def split: source.splits prod.splits)

section \<open>Zero blocks and empty cells\<close>

lemma np_zeros_shape: "nd_shape (np_zeros shp dt) = shp"
  by (simp add: np_zeros_def)

lemma np_zeros_all_zero: "x \<in> set (nd_data (np_zeros shp dt)) \<Longrightarrow> x = 0"
  by (simp add: np_zeros_def)

lemma np_zeros_length: "length (nd_data (np_zeros shp dt)) = prod_list shp"
  by (simp add: np_zeros_def)

lemma get_chunk_empty_cell:
  "in_bounds (ix_shape (indexes s)) p \<Longrightarrow> ix_cells (indexes s) (map nat p) = 0 \<Longrightarrow>
     get_chunk vd s p = Inr (np_zeros (raw_chunk_size vd) UInt64)"
  by (simp add: get_chunk_def zarr_getitem_in_bounds py_gt0_def)

lemma block_exists_empty_cell:
  "in_bounds (ix_shape (indexes s)) p \<Longrightarrow> ix_cells (indexes s) (map nat p) = 0 \<Longrightarrow>
     block_exists s p = Inr 0"
  by (simp add: block_exists_def zarr_getitem_in_bounds py_gt0_def)

lemma get_chunk_after_write:
  assumes "store_inv s" "in_bounds (ix_shape (indexes s)) p" "nd_shape b = raw_chunk_size vd"
  shows "get_chunk vd (snd (write_block vd s b p)) p = Inr b"
proof -
  from assms(1) have "0 \<le> total_chunks (meta s)" by (simp add: store_inv_def)
  then show ?thesis
    by (simp add: write_block_ok [OF assms] get_chunk_def zarr_getitem_in_bounds assms(2)
        py_gt0_def get_file_def)
qed

section \<open>The example store\<close>

lemma store0_inv: "store_inv store0"
  by (simp add: store0_def store_inv_create_new_dataset)

lemma store0_in_bounds: "in_bounds (ix_shape (indexes store0)) [0]" "in_bounds (ix_shape (indexes store0)) [1]"
  by (simp_all add: store0_def create_new_dataset_def vd0_def in_bounds_def)

lemma vd0_in_bounds: "in_bounds (index_matrix_dimension vd0) [0]" "in_bounds (index_matrix_dimension vd0) [1]"
  by (simp_all add: vd0_def in_bounds_def)

lemma block0_shape: "nd_shape block0 = raw_chunk_size vd0"
  by (simp add: block0_def vd0_def)

lemma block1_shape: "nd_shape block1 = raw_chunk_size vd0"
  by (simp add: block1_def vd0_def)

lemma zeros0: "np_zeros (raw_chunk_size vd0) UInt64 = \<lparr>nd_dtype = UInt64, nd_shape = [2], nd_data = [0, 0]\<rparr>"
  by (simp add: np_zeros_def vd0_def numeral_2_eq_2)

lemma store1_eq:
  "store1 = store0\<lparr>meta := (meta store0)\<lparr>total_chunks := 1\<rparr>,
                   raw := (raw store0)(1 \<mapsto> block0),
                   indexes := (indexes store0)\<lparr>ix_cells :=
                      (\<lambda>q. if q = [1] then 1 else ix_cells (indexes store0) q)\<rparr>\<rparr>"
proof -
  have t: "total_chunks (meta store0) = 0" by (simp add: store0_def create_new_dataset_def)
  show ?thesis
    unfolding store1_def
    by (simp add: write_block_ok [OF store0_inv store0_in_bounds(2) block0_shape] t cong: if_cong)
qed

lemma store1_inv: "store_inv store1"
  unfolding store1_def by (rule store_inv_write_block [OF store0_inv])

lemma store1_raw: "raw store1 1 = Some block0"
  by (simp add: store1_eq)

lemma store1_in_bounds: "in_bounds (ix_shape (indexes store1)) [0]" "in_bounds (ix_shape (indexes store1)) [1]"
  using store0_in_bounds by (simp_all add: store1_eq)

lemma store1_read: "get_chunk vd0 store1 [1] = Inr block0"
  unfolding store1_def
  by (rule get_chunk_after_write [OF store0_inv store0_in_bounds(2) block0_shape])

lemma store1_empty_cell: "ix_cells (indexes store1) (map nat [0]) = 0"
  by (simp add: store1_eq) (simp add: store0_def create_new_dataset_def)

section \<open>Writing, then reading\<close>

text \<open>
  Claim C1. For every grid position \<open>p\<close> within the bounds of the index dataset
  and every block \<open>b\<close> of the store's chunk shape, \<open>write_block(b, p)\<close> returns
  normally and \<open>get_chunk(p)\<close> on the store it leaves returns a block equal to
  \<open>b\<close>: same element type, same shape, same elements. The store is any store
  that satisfies the invariant.
\<close>

theorem write_then_read:
  assumes "store_inv s" "in_bounds (ix_shape (indexes s)) p" "nd_shape b = raw_chunk_size vd"
  shows "fst (write_block vd s b p) = Inr () \<and> get_chunk vd (snd (write_block vd s b p)) p = Inr b"
proof
  show "fst (write_block vd s b p) = Inr ()" by (simp add: write_block_ok [OF assms])
  show "get_chunk vd (snd (write_block vd s b p)) p = Inr b" by (rule get_chunk_after_write [OF assms])
qed

theorem write_then_read_witness:
  "store_inv store0 \<and> in_bounds (ix_shape (indexes store0)) [1] \<and> nd_shape block0 = raw_chunk_size vd0
   \<and> fst (write_block vd0 store0 block0 [1]) = Inr ()
   \<and> get_chunk vd0 (snd (write_block vd0 store0 block0 [1])) [1] = Inr block0"
  using store0_inv store0_in_bounds(2) block0_shape
    write_then_read [OF store0_inv store0_in_bounds(2) block0_shape]
  by simp

section \<open>Write-once chunks\<close>

text \<open>
  Claim C3. \<open>save_raw\<close> with an identifier under which a chunk already exists
  fails with \<open>ContainsArrayError\<close>, the error of \<open>zarr.open\<close> in the exclusive
  mode \<open>'w-'\<close>; the store is left as it was, and the existing chunk keeps its
  data.
\<close>

theorem save_raw_existing_id:
  "raw s index = Some c \<Longrightarrow>
     save_raw vd s data index = (Inl ContainsArrayError, s)
     \<and> raw (snd (save_raw vd s data index)) index = Some c"
  by (simp add: save_raw_def)

theorem save_raw_existing_id_witness:
  "raw store1 1 = Some block0
   \<and> save_raw vd0 store1 block1 1 = (Inl ContainsArrayError, store1)
   \<and> raw (snd (save_raw vd0 store1 block1 1)) 1 = Some block0"
  using store1_raw save_raw_existing_id [OF store1_raw, of vd0 block1] by simp

section \<open>Reading a cell that was never written\<close>

text \<open>
  Claim C7. In a store that \<open>create\<close> has just made, for every grid position \<open>p\<close>
  within the grid dimensions, \<open>get_chunk(p)\<close> returns a block of the chunk shape
  whose elements are all zero, and \<open>block_exists(p)\<close> returns \<open>0\<close>, Python's
  false integer.
\<close>

theorem empty_read_default:
  assumes "create vd dir overwrite = (r, Some s)" "dir = None \<or> overwrite"
    and "in_bounds (index_matrix_dimension vd) p"
  shows "get_chunk vd s p = Inr (np_zeros (raw_chunk_size vd) UInt64)
         \<and> nd_shape (np_zeros (raw_chunk_size vd) UInt64) = raw_chunk_size vd
         \<and> (\<forall>x \<in> set (nd_data (np_zeros (raw_chunk_size vd) UInt64)). x = 0)
         \<and> block_exists s p = Inr 0"
proof -
  from assms(1,2) have s: "s = create_new_dataset vd"
    by (auto simp: create_def split: option.splits)
  have b: "in_bounds (ix_shape (indexes s)) p" using assms(3) by (simp add: s create_new_dataset_def)
  have z: "ix_cells (indexes s) (map nat p) = 0" by (simp add: s create_new_dataset_def)
  show ?thesis
    by (simp add: get_chunk_empty_cell [OF b z] block_exists_empty_cell [OF b z] np_zeros_shape)
       (simp add: np_zeros_def)
qed

theorem empty_read_default_witness:
  "create vd0 None False = (Inr (), Some store0) \<and> in_bounds (index_matrix_dimension vd0) [0]
   \<and> get_chunk vd0 store0 [0] = Inr \<lparr>nd_dtype = UInt64, nd_shape = [2], nd_data = [0, 0]\<rparr>
   \<and> block_exists store0 [0] = Inr 0"
proof -
  have a: "create vd0 None False = (Inr (), Some store0)" by (simp add: create_def store0_def)
  show ?thesis using a vd0_in_bounds(1) empty_read_default [OF a _ vd0_in_bounds(1)]
    by (simp add: zeros0)
qed

section \<open>Creating over an existing location\<close>

text \<open>
  Claim C8. When the location exists, \<open>create(overwrite=False)\<close> returns normally
  and leaves the location as it is. \<open>create(overwrite=True)\<close> returns normally
  and leaves a new store: no chunk, every index entry \<open>0\<close>, no identifier
  allocated; there \<open>get_chunk\<close> returns the zero block at every position within
  the grid dimensions, whatever had been written before.
\<close>

theorem create_on_existing_location:
  "create vd (Some s) False = (Inr (), Some s)
   \<and> (\<exists>s'. create vd (Some s) True = (Inr (), Some s')
         \<and> (\<forall>i. raw s' i = None)
         \<and> (\<forall>q. ix_cells (indexes s') q = 0)
         \<and> get_total_chunks s' = 0
         \<and> (\<forall>p. in_bounds (index_matrix_dimension vd) p \<longrightarrow>
               get_chunk vd s' p = Inr (np_zeros (raw_chunk_size vd) UInt64) \<and> block_exists s' p = Inr 0))"
proof -
  let ?s' = "create_new_dataset vd"
  have 1: "create vd (Some s) False = (Inr (), Some s)" by (simp add: create_def)
  have 2: "create vd (Some s) True = (Inr (), Some ?s')" by (simp add: create_def)
  have 3: "\<forall>i. raw ?s' i = None" "\<forall>q. ix_cells (indexes ?s') q = 0" "get_total_chunks ?s' = 0"
    by (simp_all add: create_new_dataset_def get_total_chunks_def)
  have 4: "get_chunk vd ?s' p = Inr (np_zeros (raw_chunk_size vd) UInt64) \<and> block_exists ?s' p = Inr 0"
    if "in_bounds (index_matrix_dimension vd) p" for p
  proof -
    from that have b: "in_bounds (ix_shape (indexes ?s')) p" by (simp add: create_new_dataset_def)
    have z: "ix_cells (indexes ?s') (map nat p) = 0" by (simp add: create_new_dataset_def)
    show ?thesis by (simp add: get_chunk_empty_cell [OF b z] block_exists_empty_cell [OF b z])
  qed
  from 1 2 3 4 show ?thesis by blast
qed

theorem create_on_existing_location_witness:
  "in_bounds (index_matrix_dimension vd0) [1]
   \<and> get_chunk vd0 store1 [1] = Inr block0
   \<and> create vd0 (Some store1) False = (Inr (), Some store1)
   \<and> (\<exists>s'. create vd0 (Some store1) True = (Inr (), Some s')
         \<and> get_chunk vd0 s' [1] = Inr (np_zeros (raw_chunk_size vd0) UInt64))"
  using create_on_existing_location [of vd0 store1] vd0_in_bounds(2) store1_read
  by blast

section \<open>Sources that are not dask arrays\<close>

text \<open>
  Claim C9, as the code has it. \<open>fill_index_dataset\<close> fails with
  \<open>InvalidDataDaskFillError\<close> for every source other than \<open>None\<close> that is not a
  dask array, at once and with the store unchanged. For \<open>None\<close> it returns
  normally and leaves the store unchanged.
\<close>

theorem fill_index_dataset_rejects_other_types:
  "fill_index_dataset da_store s (Other type_name) = (Inl (InvalidDataDaskFillError type_name), s)
   \<and> fill_index_dataset da_store s PyNone = (Inr (), s)"
  by (simp add: fill_index_dataset_def)

text \<open>
  The claim as it was stated fails at \<open>None\<close>, which is not a dask array and for
  which nothing is raised.
\<close>

theorem fill_index_dataset_none_accepted:
  "fill_index_dataset da_store_whole store0 PyNone = (Inr (), store0)"
  by (simp add: fill_index_dataset_def)

section \<open>The element type of an empty read\<close>

text \<open>
  Claim C10. Where the index entry of a grid position is \<open>0\<close>, \<open>get_chunk\<close>
  returns the zero block of the chunk shape with element type \<open>uint64\<close>,
  whatever the store's element type \<open>d_type\<close> is. So a store can return blocks of
  two element types: there are a store, a written position and an empty position
  whose reads differ in element type, the written one having the store's.
\<close>

theorem empty_read_is_uint64:
  assumes "zarr_getitem (indexes s) p = Inr (Cell 0)"
  shows "get_chunk vd s p = Inr (np_zeros (raw_chunk_size vd) UInt64)
         \<and> nd_dtype (np_zeros (raw_chunk_size vd) UInt64) = UInt64
         \<and> (\<exists>vd' s' p' q' b z. get_chunk vd' s' p' = Inr b \<and> nd_dtype b = d_type vd'
               \<and> get_chunk vd' s' q' = Inr z \<and> nd_dtype z \<noteq> nd_dtype b)"
proof -
  have 1: "get_chunk vd s p = Inr (np_zeros (raw_chunk_size vd) UInt64)"
    using assms by (simp add: get_chunk_def py_gt0_def)
  have 2: "nd_dtype (np_zeros (raw_chunk_size vd) UInt64) = UInt64" by (simp add: np_zeros_def)
  have 3: "get_chunk vd0 store1 [0] = Inr (np_zeros (raw_chunk_size vd0) UInt64)"
    by (rule get_chunk_empty_cell [OF store1_in_bounds(1) store1_empty_cell])
  have 4: "nd_dtype block0 = d_type vd0" "nd_dtype (np_zeros (raw_chunk_size vd0) UInt64) \<noteq> nd_dtype block0"
    by (simp_all add: block0_def vd0_def np_zeros_def)
  from store1_read 3 4 have "\<exists>vd' s' p' q' b z. get_chunk vd' s' p' = Inr b \<and> nd_dtype b = d_type vd'
               \<and> get_chunk vd' s' q' = Inr z \<and> nd_dtype z \<noteq> nd_dtype b" by blast
  with 1 2 show ?thesis by blast
qed

theorem empty_read_is_uint64_witness:
  "zarr_getitem (indexes store0) [0] = Inr (Cell 0)
   \<and> d_type vd0 = Int8
   \<and> get_chunk vd0 store0 [0] = Inr \<lparr>nd_dtype = UInt64, nd_shape = [2], nd_data = [0, 0]\<rparr>"
proof -
  have a: "zarr_getitem (indexes store0) [0] = Inr (Cell 0)"
    by (simp add: zarr_getitem_in_bounds [OF store0_in_bounds(1)])
       (simp add: store0_def create_new_dataset_def)
  show ?thesis using a empty_read_is_uint64 [OF a, of vd0] by (simp add: zeros0) (simp add: vd0_def)
qed

section \<open>Positions beyond the bounds\<close>

lemma write_block_beyond:
  assumes "store_inv s" "beyond_bounds (ix_shape (indexes s)) p" "nd_shape b = raw_chunk_size vd"
  shows "write_block vd s b p =
     (Inl BoundsCheckError,
      s\<lparr>meta := (meta s)\<lparr>total_chunks := total_chunks (meta s) + 1\<rparr>,
        raw := (raw s)(total_chunks (meta s) + 1 \<mapsto> b)\<rparr>)"
proof -
  from assms(1) have free: "raw s (total_chunks (meta s) + 1) = None"
    by (simp add: store_inv_def)
  show ?thesis
    by (simp add: write_block_def get_next_index_eq save_raw_fresh free assms(3)
        update_index_def zarr_setitem_beyond assms(2))
qed

lemma store0_beyond: "beyond_bounds (ix_shape (indexes store0)) [5]"
  by (simp add: beyond_bounds_def store0_def create_new_dataset_def vd0_def)

text \<open>
  Claim C6, as the code has it. For every grid position with a coordinate at or
  beyond the length of its axis, \<open>get_chunk\<close> fails with zarr's
  \<open>BoundsCheckError\<close>, an \<open>IndexError\<close>, and being read-only leaves the store as it
  is. \<open>write_block\<close> with a block of the chunk shape fails with the same error and
  leaves the index dataset as it is, but only after it has allocated an
  identifier and stored the block under it: the counter is one higher and the
  chunk store holds one chunk more.
\<close>

theorem out_of_bounds_rejected:
  assumes "beyond_bounds (ix_shape (indexes s)) p"
  shows "get_chunk vd s p = Inl BoundsCheckError
     \<and> (store_inv s \<and> nd_shape b = raw_chunk_size vd \<longrightarrow>
          fst (write_block vd s b p) = Inl BoundsCheckError
          \<and> indexes (snd (write_block vd s b p)) = indexes s
          \<and> get_total_chunks (snd (write_block vd s b p)) = get_total_chunks s + 1
          \<and> raw (snd (write_block vd s b p)) = (raw s)(get_total_chunks s + 1 \<mapsto> b))"
proof -
  have "get_chunk vd s p = Inl BoundsCheckError"
    by (simp add: get_chunk_def zarr_getitem_beyond [OF assms])
  moreover have "fst (write_block vd s b p) = Inl BoundsCheckError
          \<and> indexes (snd (write_block vd s b p)) = indexes s
          \<and> get_total_chunks (snd (write_block vd s b p)) = get_total_chunks s + 1
          \<and> raw (snd (write_block vd s b p)) = (raw s)(get_total_chunks s + 1 \<mapsto> b)"
    if "store_inv s" "nd_shape b = raw_chunk_size vd"
    by (simp add: write_block_beyond [OF that(1) assms that(2)] get_total_chunks_def)
  ultimately show ?thesis by blast
qed

theorem out_of_bounds_rejected_witness:
  "beyond_bounds (ix_shape (indexes store0)) [5] \<and> store_inv store0 \<and> nd_shape block0 = raw_chunk_size vd0
   \<and> get_chunk vd0 store0 [5] = Inl BoundsCheckError
   \<and> fst (write_block vd0 store0 block0 [5]) = Inl BoundsCheckError
   \<and> indexes (snd (write_block vd0 store0 block0 [5])) = indexes store0"
  using store0_beyond store0_inv block0_shape out_of_bounds_rejected [OF store0_beyond, of vd0 block0]
  by simp

text \<open>
  The claim as it was stated fails for \<open>write_block\<close>: in the example store a
  write to position \<open>5\<close> of an axis of length \<open>2\<close> is rejected, and the store
  is not the one before the call.
\<close>

theorem write_block_out_of_bounds_changes_store:
  "beyond_bounds (ix_shape (indexes store0)) [5]
   \<and> fst (write_block vd0 store0 block0 [5]) = Inl BoundsCheckError
   \<and> get_total_chunks store0 = 0
   \<and> get_total_chunks (snd (write_block vd0 store0 block0 [5])) = 1
   \<and> raw store0 1 = None
   \<and> raw (snd (write_block vd0 store0 block0 [5])) 1 = Some block0
   \<and> snd (write_block vd0 store0 block0 [5]) \<noteq> store0"
proof -
  have w: "write_block vd0 store0 block0 [5] =
     (Inl BoundsCheckError,
      store0\<lparr>meta := (meta store0)\<lparr>total_chunks := total_chunks (meta store0) + 1\<rparr>,
        raw := (raw store0)(total_chunks (meta store0) + 1 \<mapsto> block0)\<rparr>)"
    by (rule write_block_beyond [OF store0_inv store0_beyond block0_shape])
  have t: "total_chunks (meta store0) = 0" "raw store0 1 = None"
    by (simp_all add: store0_def create_new_dataset_def)
  have r: "raw (snd (write_block vd0 store0 block0 [5])) 1 = Some block0"
    by (simp add: w t)
  from r t(2) have ne: "snd (write_block vd0 store0 block0 [5]) \<noteq> store0" by auto
  show ?thesis using store0_beyond ne r by (simp add: w t get_total_chunks_def)
qed

section \<open>Writing a position twice\<close>

text \<open>
  Claim C4. After \<open>write_block(b1, p)\<close> and \<open>write_block(b2, p)\<close> at a position
  within bounds, with blocks of the chunk shape, both calls have returned
  normally; the identifier that the first call put into the index still names a
  chunk that \<open>get_file\<close> opens and that equals \<open>b1\<close>; \<open>get_chunk(p)\<close> returns
  \<open>b2\<close>; and \<open>get_total_chunks\<close> is greater by 2.
\<close>

theorem overwrite_keeps_old_chunk:
  assumes "store_inv s" "in_bounds (ix_shape (indexes s)) p"
    and "nd_shape b1 = raw_chunk_size vd" "nd_shape b2 = raw_chunk_size vd"
  shows "let id1 = fst (get_next_index s);
             s1 = snd (write_block vd s b1 p);
             s2 = snd (write_block vd s1 b2 p)
         in fst (write_block vd s b1 p) = Inr () \<and> fst (write_block vd s1 b2 p) = Inr ()
            \<and> zarr_getitem (indexes s1) p = Inr (Cell id1)
            \<and> get_file s1 (Cell id1) = Inr b1
            \<and> get_file s2 (Cell id1) = Inr b1
            \<and> get_chunk vd s2 p = Inr b2
            \<and> get_total_chunks s2 = get_total_chunks s + 2"
proof -
  let ?s1 = "snd (write_block vd s b1 p)"
  let ?s2 = "snd (write_block vd ?s1 b2 p)"
  note w1 = write_block_ok [OF assms(1,2,3)]
  have inv1: "store_inv ?s1" by (rule store_inv_write_block [OF assms(1)])
  have b1: "in_bounds (ix_shape (indexes ?s1)) p" using assms(2) by (simp add: w1)
  note w2 = write_block_ok [OF inv1 b1 assms(4)]
  have t1: "total_chunks (meta ?s1) = total_chunks (meta s) + 1" by (simp add: w1)
  have r1: "raw ?s1 (total_chunks (meta s) + 1) = Some b1" by (simp add: w1)
  have i1: "zarr_getitem (indexes ?s1) p = Inr (Cell (total_chunks (meta s) + 1))"
    by (simp add: zarr_getitem_in_bounds [OF b1]) (simp add: w1)
  have r2: "raw ?s2 (total_chunks (meta s) + 1) = Some b1"
    by (subst w2) (simp add: t1 r1)
  have t2: "total_chunks (meta ?s2) = total_chunks (meta s) + 2"
    by (subst w2) (simp add: t1)
  have g2: "get_chunk vd ?s2 p = Inr b2"
    by (rule get_chunk_after_write [OF inv1 b1 assms(4)])
  have f1: "fst (write_block vd s b1 p) = Inr ()" by (simp add: w1)
  have f2: "fst (write_block vd ?s1 b2 p) = Inr ()" by (simp add: w2)
  show ?thesis
    unfolding Let_def
    using f1 f2 i1 r1 r2 g2 t2
    by (simp add: get_next_index_eq get_file_def get_total_chunks_def)
qed

theorem overwrite_keeps_old_chunk_witness:
  "store_inv store0 \<and> in_bounds (ix_shape (indexes store0)) [1]
   \<and> nd_shape block0 = raw_chunk_size vd0 \<and> nd_shape block1 = raw_chunk_size vd0
   \<and> get_file (snd (write_block vd0 (snd (write_block vd0 store0 block0 [1])) block1 [1])) (Cell 1) = Inr block0
   \<and> get_chunk vd0 (snd (write_block vd0 (snd (write_block vd0 store0 block0 [1])) block1 [1])) [1] = Inr block1
   \<and> get_total_chunks store0 = 0
   \<and> get_total_chunks (snd (write_block vd0 (snd (write_block vd0 store0 block0 [1])) block1 [1])) = 2"
proof -
  have t: "total_chunks (meta store0) = 0" by (simp add: store0_def create_new_dataset_def)
  show ?thesis
    using store0_inv store0_in_bounds(2) block0_shape block1_shape
      overwrite_keeps_old_chunk [OF store0_inv store0_in_bounds(2) block0_shape block1_shape]
    by (simp add: Let_def get_next_index_eq t get_total_chunks_def)
qed

section \<open>Identifiers are allocated in increasing order\<close>

lemma write_block_counter:
  "total_chunks (meta (snd (write_block vd s b p))) = total_chunks (meta s) + 1"
  by (simp add: write_block_def get_next_index_eq save_raw_def update_index_def Let_def
      split: option.splits sum.splits prod.splits)

lemma allocated_above_counter:
  "i \<in> set (allocated vd s cs) \<Longrightarrow> total_chunks (meta s) < i"
proof (induction vd s cs rule: allocated.induct)
  case (1 vd s)
  then show ?case by simp
next
  case (2 vd s data grid_position cs)
  then show ?case by (auto simp: get_next_index_eq write_block_counter)
next
  case (3 vd s cs)
  then show ?case by (auto split: sum.splits)
qed

text \<open>
  Claim C2. In every session of \<open>write_block\<close> calls on a store, with restarts
  anywhere in between and whether or not the calls succeed, the identifiers that
  the calls allocate are strictly increasing, and so none is allocated twice.
\<close>

theorem allocated_strictly_increasing:
  "sorted_wrt (<) (allocated vd s cs) \<and> distinct (allocated vd s cs)"
proof -
  have "sorted_wrt (<) (allocated vd s cs)"
  proof (induction vd s cs rule: allocated.induct)
    case (1 vd s)
    then show ?case by simp
  next
    case (2 vd s data grid_position cs)
    have "fst (get_next_index s) < i"
      if "i \<in> set (allocated vd (snd (write_block vd s data grid_position)) cs)" for i
      using allocated_above_counter [OF that] by (simp add: write_block_counter get_next_index_eq)
    with 2 show ?case by simp
  next
    case (3 vd s cs)
    then show ?case by (auto split: sum.splits)
  qed
  then show ?thesis by (simp add: strict_sorted_iff)
qed

text \<open>A session on the example store: a write, a restart, a rejected write, a write.\<close>

lemma open_store0: "open_store store0 = Inr vd0"
  by (simp add: open_store_def VersionedData_def store0_def create_new_dataset_def vd0_def py_truediv_eval)

lemma session_example:
  "allocated vd0 store0 [Write block0 [1], Reopen, Write block1 [5], Write block1 [0]] = [1, 2, 3]"
  by (simp add: get_next_index_eq write_block_counter open_store_def VersionedData_def py_truediv_eval
      write_block_def save_raw_def update_index_def zarr_set_all_def np_zeros_def zarr_setitem_def
      normalize_selection_def normalize_integer_selection_def
      store0_def create_new_dataset_def vd0_def block0_def block1_def)

end
